theory Spec2Isabelle
  imports Complex_Main "HOL-Library.AList" "HOL-Library.Option_ord" "HOL-Library.Multiset"
begin

section \<open>Documents and collections\<close>

text \<open>
  The dashboard reads three MongoDB collections. A field of a document is either a number
  or null; a field that is missing from a document behaves like null in every operator the
  dashboard uses (\<open>$group\<close>, \<open>$avg\<close>, \<open>$sort\<close>, the comparison operators, \<open>$ne: None\<close> and
  Python's truth test), so both are the value \<open>None\<close>. Numbers are exact rationals: MongoDB
  groups and compares numbers by value, whatever their BSON type, and the rounding of
  floating-point division is left out.
\<close>

type_synonym bson = "rat option"

record review =
  score :: bson
  year :: bson
  word_count :: bson
  helpful_ratio :: bson

record user_stat =
  user_review_count :: bson

text \<open>The \<open>_id\<close> of a \<open>product_stats\<close> row is the product identifier.\<close>

record product_stat =
  product_id :: string
  review_count :: bson
  product_avg_rating :: bson

record store =
  reviews :: "review list"
  user_stats :: "user_stat list"
  product_stats :: "product_stat list"

text \<open>
  MongoDB keeps an unique index on \<open>_id\<close>: no two rows of \<open>product_stats\<close> carry the same
  product identifier.
\<close>

definition unique_ids :: "store \<Rightarrow> bool" where
  "unique_ids db \<longleftrightarrow> distinct (map product_id (product_stats db))"

section \<open>Python dictionaries\<close>

text \<open>
  A dictionary keeps its keys in insertion order; storing under a key that is already there
  replaces the value in place. This is \<open>AList.update\<close>. A dictionary comprehension stores
  its pairs from left to right into an empty dictionary.
\<close>

type_synonym 'v dict = "(string \<times> 'v) list"

definition dict_comp :: "(string \<times> 'v) list \<Rightarrow> 'v dict" where
  "dict_comp kvs = foldl (\<lambda>d (k, v). AList.update k v d) [] kvs"

definition dict_get :: "'v dict \<Rightarrow> string \<Rightarrow> 'v option" where
  "dict_get d k = map_of d k"

definition dict_values :: "'v dict \<Rightarrow> 'v list" where
  "dict_values d = map snd d"

definition dict_keys :: "'v dict \<Rightarrow> string list" where
  "dict_keys d = map fst d"

text \<open>Python's truth test on a group identifier: \<open>None\<close> and zero are false.\<close>

definition truthy :: "bson \<Rightarrow> bool" where
  "truthy v = (case v of None \<Rightarrow> False | Some x \<Rightarrow> x \<noteq> 0)"

section \<open>The MongoDB operations the dashboard issues\<close>

definition count_documents :: "'d list \<Rightarrow> ('d \<Rightarrow> bool) \<Rightarrow> nat" where
  "count_documents coll flt = length (filter flt coll)"

text \<open>A comparison operator matches only a field that holds a number.\<close>

definition op_lte :: "rat \<Rightarrow> bson \<Rightarrow> bool" where
  "op_lte c v = (case v of None \<Rightarrow> False | Some x \<Rightarrow> x \<le> c)"

definition op_gt :: "rat \<Rightarrow> bson \<Rightarrow> bool" where
  "op_gt c v = (case v of None \<Rightarrow> False | Some x \<Rightarrow> c < x)"

definition op_ne_null :: "bson \<Rightarrow> bool" where
  "op_ne_null v = (v \<noteq> None)"

text \<open>
  \<open>$group\<close> yields one row for each distinct value of the grouping expression, with the
  documents of that group; \<open>$sort\<close> on \<open>_id\<close> orders the rows by that value, null first.
\<close>

definition group_stage :: "('d \<Rightarrow> bson) \<Rightarrow> 'd list \<Rightarrow> (bson \<times> 'd list) list" where
  "group_stage key coll =
     map (\<lambda>g. (g, filter (\<lambda>d. key d = g) coll)) (remdups (map key coll))"

definition sort_stage :: "(bson \<times> 'a) list \<Rightarrow> (bson \<times> 'a) list" where
  "sort_stage rows = sort_key fst rows"

primrec numbers :: "bson list \<Rightarrow> rat list" where
  "numbers [] = []"
| "numbers (v # vs) = (case v of None \<Rightarrow> numbers vs | Some x \<Rightarrow> x # numbers vs)"

text \<open>\<open>$avg\<close> ignores the values that are not numbers and is null when none is left.\<close>

definition acc_avg :: "bson list \<Rightarrow> bson" where
  "acc_avg vs =
     (if numbers vs = [] then None
      else Some (sum_list (numbers vs) / of_nat (length (numbers vs))))"

text \<open>
  \<open>find().sort(field, -1)\<close>: descending on the field, null last; rows with equal values
  stay in the order of the collection.
\<close>

primrec insort_desc :: "('d \<Rightarrow> bson) \<Rightarrow> 'd \<Rightarrow> 'd list \<Rightarrow> 'd list" where
  "insort_desc key x [] = [x]"
| "insort_desc key x (y # ys) =
     (if key y \<le> key x then x # y # ys else y # insort_desc key x ys)"

definition sort_desc :: "('d \<Rightarrow> bson) \<Rightarrow> 'd list \<Rightarrow> 'd list" where
  "sort_desc key coll = foldr (insort_desc key) coll []"

definition limit :: "nat \<Rightarrow> 'd list \<Rightarrow> 'd list" where
  "limit n rows = take n rows"

section \<open>The statistics bundle\<close>

text \<open>A value of \<open>yearly_data\<close>: the dictionary with the keys \<open>count\<close> and \<open>avg_rating\<close>.\<close>

record year_entry =
  year_count :: nat
  year_avg_rating :: bson

text \<open>The key \<open>power\<close> of \<open>user_segments\<close> is the field \<open>power_seg\<close>.\<close>

record user_segments_t =
  casual :: nat
  regular :: nat
  power_seg :: nat

text \<open>The dictionary that \<open>load_stats_from_mongodb\<close> returns, one field for each key.\<close>

record stats =
  total_reviews :: nat
  unique_users :: nat
  unique_products :: nat
  avg_rating :: bson
  avg_word_count :: bson
  rating_counts :: "nat dict"
  rating_percentages :: "rat dict"
  yearly_data :: "year_entry dict"
  user_segments :: user_segments_t
  power_users :: nat
  word_count_by_rating :: "bson dict"
  helpful_by_rating :: "bson dict"
  top_products :: "product_stat list"
  source :: string

section \<open>The queries of \<open>load_stats_from_mongodb\<close>\<close>

text \<open>
  Python's \<open>str\<close> is a parameter of the model: what it prints for a number depends on the
  BSON type the number was stored with (\<open>5\<close> or \<open>5.0\<close>).
\<close>

text \<open>
  One instance of \<open>str\<close>, for stores whose numbers are all whole and stored as integers:
  \<open>None\<close> prints as \<open>None\<close>, an integer in decimal. (The fraction of any other number is
  dropped, so the instance says nothing about stores that hold such numbers.)
\<close>

fun digits :: "nat \<Rightarrow> string" where
  "digits n =
     (if n < 10 then [''0123456789'' ! n]
      else digits (n div 10) @ [''0123456789'' ! (n mod 10)])"

definition str_int :: "bson \<Rightarrow> string" where
  "str_int v =
     (case v of
        None \<Rightarrow> ''None''
      | Some q \<Rightarrow> (if q < 0 then ''-'' else []) @ digits (nat \<lfloor>\<bar>q\<bar>\<rfloor>))"

definition rating_results :: "store \<Rightarrow> (bson \<times> nat) list" where
  "rating_results db =
     sort_stage (map (\<lambda>(g, ds). (g, length ds)) (group_stage score (reviews db)))"

definition rating_counts_of :: "(bson \<Rightarrow> string) \<Rightarrow> store \<Rightarrow> nat dict" where
  "rating_counts_of str db = dict_comp (map (\<lambda>(g, n). (str g, n)) (rating_results db))"

definition yearly_results :: "store \<Rightarrow> (bson \<times> year_entry) list" where
  "yearly_results db =
     sort_stage (map (\<lambda>(g, ds). (g, \<lparr>year_count = length ds,
                                      year_avg_rating = acc_avg (map score ds)\<rparr>))
                     (group_stage year (reviews db)))"

definition yearly_data_of :: "(bson \<Rightarrow> string) \<Rightarrow> store \<Rightarrow> year_entry dict" where
  "yearly_data_of str db =
     dict_comp (map (\<lambda>(g, e). (str g, e)) (filter (\<lambda>(g, e). truthy g) (yearly_results db)))"

definition avg_result :: "store \<Rightarrow> (bson \<times> bson \<times> bson) list" where
  "avg_result db =
     map (\<lambda>(g, ds). (g, acc_avg (map score ds), acc_avg (map word_count ds)))
         (group_stage (\<lambda>_. None) (reviews db))"

definition wc_results :: "store \<Rightarrow> (bson \<times> bson) list" where
  "wc_results db =
     sort_stage (map (\<lambda>(g, ds). (g, acc_avg (map word_count ds)))
                     (group_stage score (reviews db)))"

definition help_results :: "store \<Rightarrow> (bson \<times> bson) list" where
  "help_results db =
     sort_stage (map (\<lambda>(g, ds). (g, acc_avg (map helpful_ratio ds)))
                     (group_stage score (filter (\<lambda>r. op_ne_null (helpful_ratio r)) (reviews db))))"

definition compute_statistics :: "(bson \<Rightarrow> string) \<Rightarrow> store \<Rightarrow> stats" where
  "compute_statistics str db =
     (let total = count_documents (reviews db) (\<lambda>_. True);
          counts = rating_counts_of str db;
          pow = count_documents (user_stats db) (\<lambda>u. op_gt 50 (user_review_count u))
      in \<lparr>total_reviews = total,
          unique_users = count_documents (user_stats db) (\<lambda>_. True),
          unique_products = count_documents (product_stats db) (\<lambda>_. True),
          avg_rating = (case avg_result db of [] \<Rightarrow> Some 0 | r # _ \<Rightarrow> fst (snd r)),
          avg_word_count = (case avg_result db of [] \<Rightarrow> Some 0 | r # _ \<Rightarrow> snd (snd r)),
          rating_counts = counts,
          rating_percentages =
            (if total > 0
             then dict_comp (map (\<lambda>(k, v). (k, of_nat v / of_nat total * 100)) counts)
             else []),
          yearly_data = yearly_data_of str db,
          user_segments =
            \<lparr>casual = count_documents (user_stats db) (\<lambda>u. op_lte 5 (user_review_count u)),
             regular = count_documents (user_stats db)
                         (\<lambda>u. op_gt 5 (user_review_count u) \<and> op_lte 50 (user_review_count u)),
             power_seg = pow\<rparr>,
          power_users = pow,
          word_count_by_rating = dict_comp (map (\<lambda>(g, a). (str g, a)) (wc_results db)),
          helpful_by_rating = dict_comp (map (\<lambda>(g, a). (str g, a)) (help_results db)),
          top_products = limit 15 (sort_desc review_count (product_stats db)),
          source = ''MongoDB (150K Sample)''\<rparr>)"

section \<open>Connection set-up and the two caches\<close>

text \<open>
  The process environment, the \<open>.env\<close> file, the exceptions the set-up steps raise, the
  databases reachable through the client, the exception a query on a database raises when
  its server does not answer, the two Streamlit caches and the error messages shown on the
  page. A handle is the name of the database it was opened on; a query through it reads that
  database at the time of the call. An exception is its message.
\<close>

type_synonym exn = string

record world =
  environ :: "string \<rightharpoonup> string"
  dotenv :: "string \<rightharpoonup> string"
  import_error :: "exn option"
  client_error :: "string \<Rightarrow> string \<Rightarrow> exn option"
  databases :: "string \<Rightarrow> store"
  query_error :: "string \<Rightarrow> exn option"
  connect_cache :: "string option option"
  stats_cache :: "stats option option"
  st_errors :: "string list"

definition st_error :: "exn \<Rightarrow> world \<Rightarrow> world" where
  "st_error e w = w\<lparr>st_errors := st_errors w @ [''MongoDB connection failed: '' @ e]\<rparr>"

text \<open>\<open>load_dotenv()\<close> adds the variables of the \<open>.env\<close> file that the environment lacks.\<close>

definition load_dotenv :: "world \<Rightarrow> world" where
  "load_dotenv w = w\<lparr>environ := dotenv w ++ environ w\<rparr>"

definition connect_mongodb_body :: "world \<Rightarrow> string option \<times> world" where
  "connect_mongodb_body w =
     (case import_error w of
        Some e \<Rightarrow> (None, st_error e w)
      | None \<Rightarrow>
          (let w1 = load_dotenv w in
           case environ w1 ''MONGODB_URI'' of
             None \<Rightarrow> (None, w1)
           | Some uri \<Rightarrow>
               if uri = [] then (None, w1)
               else
                 (let name = (case environ w1 ''MONGODB_DATABASE'' of
                                None \<Rightarrow> ''amazon_movies'' | Some n \<Rightarrow> n)
                  in case client_error w1 uri name of
                       Some e \<Rightarrow> (None, st_error e w1)
                     | None \<Rightarrow> (Some name, w1))))"

text \<open>\<open>@st.cache_resource\<close>: the body runs once, its result is kept, \<open>None\<close> included.\<close>

definition connect_mongodb :: "world \<Rightarrow> string option \<times> world" where
  "connect_mongodb w =
     (case connect_cache w of
        Some r \<Rightarrow> (r, w)
      | None \<Rightarrow> (case connect_mongodb_body w of
                   (r, w1) \<Rightarrow> (r, w1\<lparr>connect_cache := Some r\<rparr>)))"

text \<open>
  The queries and the assembly of the bundle (lines 155 to 211) through an open handle. The
  client connects at the first query; nothing catches the exception it raises when the
  server does not answer.
\<close>

definition run_queries :: "(bson \<Rightarrow> string) \<Rightarrow> world \<Rightarrow> string \<Rightarrow> exn + stats" where
  "run_queries str w db =
     (case query_error w db of
        Some e \<Rightarrow> Inl e
      | None \<Rightarrow> Inr (compute_statistics str (databases w db)))"

definition load_stats_body ::
  "(bson \<Rightarrow> string) \<Rightarrow> world \<Rightarrow> (exn + stats option) \<times> world" where
  "load_stats_body str w =
     (case connect_mongodb w of
        (None, w1) \<Rightarrow> (Inr None, w1)
      | (Some db, w1) \<Rightarrow>
          (case run_queries str w1 db of
             Inl e \<Rightarrow> (Inl e, w1)
           | Inr b \<Rightarrow> (Inr (Some b), w1)))"

text \<open>
  \<open>@st.cache_data\<close> on a function without arguments: one entry, filled when the body
  returns, not when it raises.
\<close>

definition load_stats_from_mongodb ::
  "(bson \<Rightarrow> string) \<Rightarrow> world \<Rightarrow> (exn + stats option) \<times> world" where
  "load_stats_from_mongodb str w =
     (case stats_cache w of
        Some r \<Rightarrow> (Inr r, w)
      | None \<Rightarrow>
          (case load_stats_body str w of
             (Inl e, w1) \<Rightarrow> (Inl e, w1)
           | (Inr r, w1) \<Rightarrow> (Inr r, w1\<lparr>stats_cache := Some r\<rparr>)))"

text \<open>
  In a run of the dashboard the cached statistics come from a call that went through
  \<open>connect_mongodb\<close>: the connection cache is filled, and the statistics are \<open>None\<close>
  exactly when the cached handle is.
\<close>

definition caches_consistent :: "world \<Rightarrow> bool" where
  "caches_consistent w =
     (case stats_cache w of
        None \<Rightarrow> True
      | Some r \<Rightarrow> (case connect_cache w of
                   None \<Rightarrow> False
                 | Some h \<Rightarrow> (r = None) = (h = None)))"

section \<open>The mean the specification describes\<close>

text \<open>
  The specification's per-score averages: the mean of a field over those reviews of a list
  that have the field, null when none has it. This definition follows the specification;
  the aggregation above follows the code.
\<close>

definition mean_where_present :: "(review \<Rightarrow> bson) \<Rightarrow> review list \<Rightarrow> bson" where
  "mean_where_present field rs =
     (let present = filter (\<lambda>r. field r \<noteq> None) rs
      in if present = [] then None
         else Some (sum_list (map (\<lambda>r. the (field r)) present) / of_nat (length present)))"

section \<open>A sample store\<close>

text \<open>Five reviews with the scores 1, 1, 5, 5, 5 in the years 2000 and 2001.\<close>

definition db_sample :: store where
  "db_sample =
     \<lparr>reviews = [\<lparr>score = Some 1, year = Some 2000, word_count = Some 10, helpful_ratio = None\<rparr>,
                 \<lparr>score = Some 1, year = Some 2000, word_count = None, helpful_ratio = Some (1 / 2)\<rparr>,
                 \<lparr>score = Some 5, year = Some 2001, word_count = Some 30, helpful_ratio = Some 1\<rparr>,
                 \<lparr>score = Some 5, year = Some 2001, word_count = Some 50, helpful_ratio = None\<rparr>,
                 \<lparr>score = Some 5, year = Some 2001, word_count = None, helpful_ratio = None\<rparr>],
      user_stats = [\<lparr>user_review_count = Some 3\<rparr>, \<lparr>user_review_count = Some 51\<rparr>],
      product_stats = [\<lparr>product_id = ''A'', review_count = Some 3, product_avg_rating = Some 4\<rparr>,
                       \<lparr>product_id = ''B'', review_count = Some 7, product_avg_rating = Some 5\<rparr>]\<rparr>"

text \<open>One review, dated in the year 0.\<close>

definition db_year_zero :: store where
  "db_year_zero =
     \<lparr>reviews = [\<lparr>score = Some 4, year = Some 0, word_count = Some 12, helpful_ratio = None\<rparr>],
      user_stats = [], product_stats = []\<rparr>"

text \<open>Two reviews, one of them without a score.\<close>

definition db_no_score :: store where
  "db_no_score =
     \<lparr>reviews = [\<lparr>score = None, year = Some 1999, word_count = Some 8, helpful_ratio = None\<rparr>,
                 \<lparr>score = Some 3, year = None, word_count = None, helpful_ratio = Some 0\<rparr>],
      user_stats = [], product_stats = []\<rparr>"

text \<open>No review, one product summary.\<close>

definition db_no_reviews :: store where
  "db_no_reviews =
     \<lparr>reviews = [], user_stats = [],
      product_stats = [\<lparr>product_id = ''A'', review_count = Some 3, product_avg_rating = Some 4\<rparr>]\<rparr>"

text \<open>
  A fresh process with the connection string in its environment and the sample store behind
  it; one with no connection string at all; one whose client cannot be built; one that is
  pointed at a database without reviews; one whose server does not answer.
\<close>

definition world_sample :: world where
  "world_sample =
     \<lparr>environ = [''MONGODB_URI'' \<mapsto> ''mongodb://localhost''], dotenv = Map.empty,
      import_error = None, client_error = (\<lambda>uri name. None),
      databases = (\<lambda>name. if name = ''amazon_movies'' then db_sample else db_no_reviews),
      query_error = (\<lambda>name. None),
      connect_cache = None, stats_cache = None, st_errors = []\<rparr>"

definition world_no_uri :: world where
  "world_no_uri = world_sample\<lparr>environ := Map.empty\<rparr>"

definition world_bad_client :: world where
  "world_bad_client = world_sample\<lparr>client_error := (\<lambda>uri name. Some ''Invalid URI'')\<rparr>"

definition world_empty_db :: world where
  "world_empty_db = world_sample\<lparr>environ := [''MONGODB_URI'' \<mapsto> ''mongodb://localhost'',
                                            ''MONGODB_DATABASE'' \<mapsto> ''empty'']\<rparr>"

definition world_server_down :: world where
  "world_server_down =
     world_sample\<lparr>query_error := (\<lambda>name. Some ''ServerSelectionTimeoutError'')\<rparr>"

section \<open>The same documents in another order\<close>




section \<open>Dictionaries, groups and sums\<close>

lemma update_fresh: "k \<notin> fst ` set d \<Longrightarrow> AList.update k v d = d @ [(k, v)]"
  by (induction d) auto

lemma foldl_update_distinct:
  "distinct (map fst (d @ kvs)) \<Longrightarrow> foldl (\<lambda>d (k, v). AList.update k v d) d kvs = d @ kvs"
proof (induction kvs arbitrary: d)
  case Nil
  then show ?case by simp
next
  case (Cons p kvs)
  obtain k v where p: "p = (k, v)" by (cases p)
  from Cons.prems have fresh: "k \<notin> fst ` set d" by (auto simp: p)
  from Cons.prems have "distinct (map fst ((d @ [(k, v)]) @ kvs))" by (simp add: p)
  from Cons.IH [OF this] show ?case by (simp add: p update_fresh [OF fresh])
qed

lemma dict_comp_distinct: "distinct (map fst kvs) \<Longrightarrow> dict_comp kvs = kvs"
  using foldl_update_distinct [of "[]" kvs] by (simp add: dict_comp_def)

lemma distinct_foldl_update:
  "distinct (map fst d) \<Longrightarrow> distinct (map fst (foldl (\<lambda>d (k, v). AList.update k v d) d kvs))"
  by (induction kvs arbitrary: d) (auto simp: AList.distinct_update)

lemma distinct_dict_comp: "distinct (map fst (dict_comp kvs))"
  by (simp add: dict_comp_def distinct_foldl_update)

lemma keys_foldl_update:
  "fst ` set (foldl (\<lambda>d (k, v). AList.update k v d) d kvs) = fst ` set d \<union> fst ` set kvs"
proof (induction kvs arbitrary: d)
  case Nil
  then show ?case by simp
next
  case (Cons p kvs)
  obtain k v where p: "p = (k, v)" by (cases p)
  have "fst ` set (foldl (\<lambda>d (k, v). AList.update k v d) (AList.update k v d) kvs)
        = fst ` set (AList.update k v d) \<union> fst ` set kvs"
    by (rule Cons.IH)
  then show ?case by (simp add: p AList.dom_update)
qed

lemma keys_dict_comp: "set (dict_keys (dict_comp kvs)) = fst ` set kvs"
  by (simp add: dict_comp_def dict_keys_def keys_foldl_update)

lemma dict_comp_Nil: "dict_comp [] = []"
  by (simp add: dict_comp_def)

lemma map_of_scaled:
  "map_of (map (\<lambda>(k, v). (k, f v)) d) k = map_option f (map_of d k)"
  by (induction d) auto

lemma sum_list_insort_key:
  "sum_list (map g (insort_key f x xs)) = g x + sum_list (map g xs)"
  for g :: "'a \<Rightarrow> nat"
  by (induction xs) auto

lemma sum_list_sort_key:
  "sum_list (map g (sort_key f xs)) = sum_list (map g xs)"
  for g :: "'a \<Rightarrow> nat"
  by (induction xs) (auto simp: sum_list_insort_key)

lemma sum_list_indicator:
  "distinct gs \<Longrightarrow> (\<Sum>g\<leftarrow>gs. if a = g then 1 else 0) = (if a \<in> set gs then 1 else (0::nat))"
  by (induction gs) auto

lemma group_sizes:
  "distinct gs \<Longrightarrow> key ` set xs \<subseteq> set gs \<Longrightarrow>
     (\<Sum>g\<leftarrow>gs. length (filter (\<lambda>d. key d = g) xs)) = length xs"
proof (induction xs)
  case Nil
  then show ?case by simp
next
  case (Cons x xs)
  have "(\<Sum>g\<leftarrow>gs. length (filter (\<lambda>d. key d = g) (x # xs)))
        = (\<Sum>g\<leftarrow>gs. (if key x = g then 1 else 0) + length (filter (\<lambda>d. key d = g) xs))"
    by (rule arg_cong [where f = sum_list]) simp
  also have "\<dots> = (\<Sum>g\<leftarrow>gs. if key x = g then 1 else 0)
                  + (\<Sum>g\<leftarrow>gs. length (filter (\<lambda>d. key d = g) xs))"
    by (simp add: sum_list_addf)
  also have "\<dots> = 1 + length xs"
    using Cons by (simp add: sum_list_indicator)
  finally show ?case by simp
qed

lemma group_ids: "map fst (group_stage key coll) = remdups (map key coll)"
  by (simp add: group_stage_def comp_def)

lemma distinct_sort_stage_ids:
  "distinct (map fst rows) \<Longrightarrow> distinct (map fst (sort_stage rows))"
  by (simp add: sort_stage_def distinct_map)

lemma set_sort_stage: "set (sort_stage rows) = set rows"
  by (simp add: sort_stage_def)

lemma fst_accumulated: "fst \<circ> (\<lambda>(g, ds). (g, acc ds)) = fst"
  by (auto simp: fun_eq_iff)

lemma ids_accumulated:
  "map fst (map (\<lambda>(g, ds). (g, acc ds)) rows) = map fst rows"
  by (simp add: fst_accumulated)

lemma pipeline_ids:
  "map fst (map (\<lambda>(g, ds). (g, acc ds)) (group_stage key coll)) = remdups (map key coll)"
  by (simp only: ids_accumulated group_ids)

lemma pipeline_distinct:
  "distinct (map fst (sort_stage (map (\<lambda>(g, ds). (g, acc ds)) (group_stage key coll))))"
  by (rule distinct_sort_stage_ids) (simp only: pipeline_ids distinct_remdups)

lemma pipeline_id_set:
  "fst ` set (sort_stage (map (\<lambda>(g, ds). (g, acc ds)) (group_stage key coll))) = key ` set coll"
proof -
  have "fst ` set (sort_stage (map (\<lambda>(g, ds). (g, acc ds)) (group_stage key coll)))
        = set (map fst (map (\<lambda>(g, ds). (g, acc ds)) (group_stage key coll)))"
    unfolding set_sort_stage by (simp only: set_map)
  then show ?thesis by (simp only: pipeline_ids set_remdups set_map)
qed

lemma rating_results_ids: "distinct (map fst (rating_results db))"
  unfolding rating_results_def by (rule pipeline_distinct)

lemma rating_results_id_set: "fst ` set (rating_results db) = score ` set (reviews db)"
  unfolding rating_results_def by (rule pipeline_id_set)

lemma rating_results_total:
  "sum_list (map snd (rating_results db)) = length (reviews db)"
proof -
  have "sum_list (map snd (rating_results db))
        = (\<Sum>g\<leftarrow>remdups (map score (reviews db)). length (filter (\<lambda>d. score d = g) (reviews db)))"
    by (simp add: rating_results_def sort_stage_def sum_list_sort_key group_stage_def comp_def)
  also have "\<dots> = length (reviews db)"
    by (rule group_sizes) auto
  finally show ?thesis .
qed

lemma rating_counts_eq: "rating_counts (compute_statistics str db) = rating_counts_of str db"
  by (simp add: compute_statistics_def Let_def)

lemma total_reviews_eq: "total_reviews (compute_statistics str db) = length (reviews db)"
  by (simp add: compute_statistics_def Let_def count_documents_def)

lemma rating_percentages_eq:
  "rating_percentages (compute_statistics str db) =
     (if reviews db = [] then []
      else map (\<lambda>(k, v). (k, of_nat v / of_nat (length (reviews db)) * 100))
               (rating_counts_of str db))"
proof -
  have "distinct (map fst (map (\<lambda>(k, v). (k, of_nat v / of_nat (length (reviews db)) * (100::rat)))
                               (rating_counts_of str db)))"
    by (simp add: fst_accumulated rating_counts_of_def distinct_dict_comp)
  then show ?thesis
    by (simp add: compute_statistics_def Let_def count_documents_def dict_comp_distinct)
qed

section \<open>Rating percentages\<close>

text \<open>
  C1. When the review collection is not empty, \<open>rating_percentages\<close> has the keys of
  \<open>rating_counts\<close> and holds, under each key, the count divided by \<open>total_reviews\<close>
  times 100; when \<open>total_reviews\<close> is 0 the mapping is empty.
\<close>

theorem rating_percentages_formula:
  "(reviews db \<noteq> [] \<longrightarrow>
      dict_keys (rating_percentages (compute_statistics str db))
        = dict_keys (rating_counts (compute_statistics str db))
      \<and> (\<forall>k v. dict_get (rating_counts (compute_statistics str db)) k = Some v \<longrightarrow>
             dict_get (rating_percentages (compute_statistics str db)) k
               = Some (of_nat v / of_nat (total_reviews (compute_statistics str db)) * 100)))
   \<and> (total_reviews (compute_statistics str db) = 0 \<longrightarrow>
        rating_percentages (compute_statistics str db) = [])"
  by (simp add: rating_percentages_eq rating_counts_eq total_reviews_eq dict_keys_def
        dict_get_def fst_accumulated map_of_scaled)

lemma sample_rating_counts: "rating_counts (compute_statistics str_int db_sample) = [(''1'', 2), (''5'', 3)]"
  by code_simp

lemma sample_rating_percentages: "rating_percentages (compute_statistics str_int db_sample) = [(''1'', 40), (''5'', 60)]"
  by code_simp

theorem rating_percentages_formula_witness:
  "reviews db_sample \<noteq> []
   \<and> dict_get (rating_counts (compute_statistics str_int db_sample)) ''5'' = Some 3
   \<and> dict_get (rating_percentages (compute_statistics str_int db_sample)) ''5'' = Some 60"
  using rating_percentages_formula [of db_sample str_int] 
  apply (simp add: sample_rating_counts dict_get_def total_reviews_eq)
  apply (simp add: db_sample_def)
  done

section \<open>The rating histogram covers every review\<close>

lemma keys_rendered: "map fst (map (\<lambda>(g, a). (str g, a)) rows) = map str (map fst rows)"
  by (induction rows) auto

lemma values_rendered: "map snd (map (\<lambda>(g, a). (str g, a)) rows) = map snd rows"
  by (induction rows) auto

lemma rendered_distinct:
  assumes "distinct (map fst rows)" and "inj_on str (fst ` set rows)"
  shows "distinct (map fst (map (\<lambda>(g, a). (str g, a)) rows))"
proof -
  have "distinct (map str (map fst rows))"
    using assms by (subst distinct_map) simp
  then show ?thesis by (simp only: keys_rendered)
qed

lemma rendered_dict:
  assumes "distinct (map fst rows)" and "inj_on str (fst ` set rows)"
  shows "dict_comp (map (\<lambda>(g, a). (str g, a)) rows) = map (\<lambda>(g, a). (str g, a)) rows"
  by (rule dict_comp_distinct) (rule rendered_distinct [OF assms])

lemma pipeline_row:
  assumes "g \<in> key ` set coll"
  shows "(g, acc (filter (\<lambda>d. key d = g) coll))
           \<in> set (sort_stage (map (\<lambda>(g, ds). (g, acc ds)) (group_stage key coll)))"
proof -
  from assms have "(g, filter (\<lambda>d. key d = g) coll) \<in> set (group_stage key coll)"
    by (auto simp: group_stage_def)
  then have "(\<lambda>(g, ds). (g, acc ds)) (g, filter (\<lambda>d. key d = g) coll)
               \<in> (\<lambda>(g, ds). (g, acc ds)) ` set (group_stage key coll)"
    by (rule imageI)
  then show ?thesis by (simp add: set_sort_stage)
qed

lemma rendered_lookup:
  assumes "distinct (map fst rows)" and "inj_on str (fst ` set rows)" and "(g, a) \<in> set rows"
  shows "dict_get (dict_comp (map (\<lambda>(g, a). (str g, a)) rows)) (str g) = Some a"
proof -
  have "(str g, a) \<in> set (map (\<lambda>(g, a). (str g, a)) rows)"
    using assms(3) by force
  with rendered_distinct [OF assms(1,2)]
  have "map_of (map (\<lambda>(g, a). (str g, a)) rows) (str g) = Some a"
    by (rule map_of_is_SomeI)
  then show ?thesis by (simp only: dict_get_def rendered_dict [OF assms(1,2)])
qed

lemma rendered_lookup_None:
  assumes "inj_on str (insert g (fst ` set rows))" and "g \<notin> fst ` set rows"
  shows "dict_get (dict_comp (map (\<lambda>(g, a). (str g, a)) rows)) (str g) = None"
proof -
  have "set (dict_keys (dict_comp (map (\<lambda>(g, a). (str g, a)) rows)))
        = set (map fst (map (\<lambda>(g, a). (str g, a)) rows))"
    by (simp only: keys_dict_comp set_map)
  also have "\<dots> = str ` fst ` set rows"
    by (simp only: keys_rendered set_map)
  finally have keys: "set (dict_keys (dict_comp (map (\<lambda>(g, a). (str g, a)) rows)))
        = str ` fst ` set rows" .
  have "str g \<notin> str ` fst ` set rows"
    using assms by (auto simp: inj_on_def)
  with keys have "str g \<notin> fst ` set (dict_comp (map (\<lambda>(g, a). (str g, a)) rows))"
    by (simp add: dict_keys_def)
  then show ?thesis
    by (simp add: dict_get_def map_of_eq_None_iff)
qed

text \<open>
  C9. The values of \<open>rating_counts\<close> add up to the number of reviews in the collection,
  which is \<open>total_reviews\<close>, and the count under the printed score \<open>g\<close> is the number of
  reviews whose score is \<open>g\<close>: every review falls into the group of its score, the reviews
  without a score into the group of null, none is lost and none is counted twice. The keys
  of the mapping are the printed scores, so \<open>str\<close> has to tell the scores of the store apart,
  as Python's does on numbers and \<open>None\<close>.
\<close>

theorem rating_counts_sum:
  assumes "inj_on str (score ` set (reviews db))"
  shows "sum_list (dict_values (rating_counts (compute_statistics str db))) = length (reviews db)
       \<and> total_reviews (compute_statistics str db) = length (reviews db)
       \<and> length (rating_counts (compute_statistics str db)) = card (score ` set (reviews db))
       \<and> (\<forall>g\<in>score ` set (reviews db).
            dict_get (rating_counts (compute_statistics str db)) (str g)
              = Some (length (filter (\<lambda>r. score r = g) (reviews db))))"
proof -
  have inj: "inj_on str (fst ` set (rating_results db))"
    using assms by (simp only: rating_results_id_set)
  have "rating_counts_of str db = map (\<lambda>(g, n). (str g, n)) (rating_results db)"
    unfolding rating_counts_of_def
    by (rule rendered_dict) (rule rating_results_ids, rule inj)
  then have vals: "dict_values (rating_counts_of str db) = map snd (rating_results db)"
    and len: "length (rating_counts_of str db) = length (map fst (rating_results db))"
    by (simp_all only: dict_values_def values_rendered length_map)
  have "sum_list (dict_values (rating_counts (compute_statistics str db))) = length (reviews db)"
    by (simp only: rating_counts_eq vals rating_results_total)
  moreover have "length (rating_counts (compute_statistics str db))
                   = card (score ` set (reviews db))"
    using distinct_card [OF rating_results_ids [of db]]
    by (simp only: rating_counts_eq len set_map rating_results_id_set)
  moreover have "dict_get (rating_counts (compute_statistics str db)) (str g)
              = Some (length (filter (\<lambda>r. score r = g) (reviews db)))"
    if "g \<in> score ` set (reviews db)" for g
  proof -
    have "(g, length (filter (\<lambda>d. score d = g) (reviews db))) \<in> set (rating_results db)"
      unfolding rating_results_def using that by (rule pipeline_row)
    with rating_results_ids [of db] inj
    have "dict_get (dict_comp (map (\<lambda>(g, a). (str g, a)) (rating_results db))) (str g)
            = Some (length (filter (\<lambda>d. score d = g) (reviews db)))"
      by (rule rendered_lookup)
    then show ?thesis by (simp only: rating_counts_eq rating_counts_of_def)
  qed
  ultimately show ?thesis by (simp add: total_reviews_eq)
qed

theorem rating_counts_sum_witness:
  "inj_on str_int (score ` set (reviews db_no_score))
   \<and> score ` set (reviews db_no_score) = {None, Some 3}
   \<and> rating_counts (compute_statistics str_int db_no_score) = [(''None'', 1), (''3'', 1)]
   \<and> sum_list (dict_values (rating_counts (compute_statistics str_int db_no_score))) = 2
   \<and> length (reviews db_no_score) = 2"
proof -
  have sc: "score ` set (reviews db_no_score) = {None, Some 3}"
    by (auto simp: db_no_score_def)
  have inj: "inj_on str_int (score ` set (reviews db_no_score))"
    by (simp add: sc str_int_def)
  have counts: "rating_counts (compute_statistics str_int db_no_score) = [(''None'', 1), (''3'', 1)]"
    by code_simp
  from rating_counts_sum [OF inj] inj counts sc show ?thesis
    by (simp add: db_no_score_def)
qed

section \<open>User segments\<close>

lemma three_way_count:
  assumes "\<forall>x\<in>set xs. (A x \<and> \<not> B x \<and> \<not> C x) \<or> (\<not> A x \<and> B x \<and> \<not> C x) \<or> (\<not> A x \<and> \<not> B x \<and> C x)"
  shows "length (filter A xs) + length (filter B xs) + length (filter C xs) = length xs"
  using assms by (induction xs) auto

lemma op_lte_iff: "op_lte c v \<longleftrightarrow> (\<exists>n. v = Some n \<and> n \<le> c)"
  by (cases v) (simp_all add: op_lte_def)

lemma op_gt_iff: "op_gt c v \<longleftrightarrow> (\<exists>n. v = Some n \<and> c < n)"
  by (cases v) (simp_all add: op_gt_def)

lemma casual_eq:
  "casual (user_segments (compute_statistics str db))
     = length (filter (\<lambda>u. \<exists>n. user_review_count u = Some n \<and> n \<le> 5) (user_stats db))"
  by (simp add: compute_statistics_def Let_def count_documents_def op_lte_iff)

lemma regular_eq:
  "regular (user_segments (compute_statistics str db))
     = length (filter (\<lambda>u. \<exists>n. user_review_count u = Some n \<and> 5 < n \<and> n \<le> 50) (user_stats db))"
proof -
  have "(\<lambda>u. op_gt 5 (user_review_count u) \<and> op_lte 50 (user_review_count u))
        = (\<lambda>u. \<exists>n. user_review_count u = Some n \<and> 5 < n \<and> n \<le> 50)"
    by (auto simp: fun_eq_iff op_lte_iff op_gt_iff)
  then have "filter (\<lambda>u. op_gt 5 (user_review_count u) \<and> op_lte 50 (user_review_count u))
               (user_stats db)
             = filter (\<lambda>u. \<exists>n. user_review_count u = Some n \<and> 5 < n \<and> n \<le> 50) (user_stats db)"
    by (rule arg_cong)
  then show ?thesis
    by (simp only: compute_statistics_def Let_def count_documents_def stats.simps
        user_segments_t.simps)
qed

lemma power_eq:
  "power_seg (user_segments (compute_statistics str db))
     = length (filter (\<lambda>u. \<exists>n. user_review_count u = Some n \<and> 50 < n) (user_stats db))"
  by (simp add: compute_statistics_def Let_def count_documents_def op_gt_iff)

lemma unique_users_eq: "unique_users (compute_statistics str db) = length (user_stats db)"
  by (simp add: compute_statistics_def Let_def count_documents_def)

text \<open>
  C2. The counter \<open>casual\<close> is the number of rows of \<open>user_stats\<close> whose review count is
  a number of at most 5, \<open>regular\<close> of those above 5 and at most 50, \<open>power\<close> of those above
  50, and \<open>unique_users\<close> is the number of all rows. When every row holds a review count
  that is a number and not negative, the three counters add up to \<open>unique_users\<close>, and
  every row is in exactly one of the three segments.
\<close>

theorem user_segments_partition:
  assumes "\<forall>u\<in>set (user_stats db). \<exists>n. user_review_count u = Some n \<and> 0 \<le> n"
  shows "casual (user_segments (compute_statistics str db))
           = length (filter (\<lambda>u. \<exists>n. user_review_count u = Some n \<and> n \<le> 5) (user_stats db))
       \<and> regular (user_segments (compute_statistics str db))
           = length (filter (\<lambda>u. \<exists>n. user_review_count u = Some n \<and> 5 < n \<and> n \<le> 50)
                       (user_stats db))
       \<and> power_seg (user_segments (compute_statistics str db))
           = length (filter (\<lambda>u. \<exists>n. user_review_count u = Some n \<and> 50 < n) (user_stats db))
       \<and> unique_users (compute_statistics str db) = length (user_stats db)
       \<and> casual (user_segments (compute_statistics str db))
           + regular (user_segments (compute_statistics str db))
           + power_seg (user_segments (compute_statistics str db))
         = unique_users (compute_statistics str db)
       \<and> (\<forall>u\<in>set (user_stats db).
            ((\<exists>n. user_review_count u = Some n \<and> n \<le> 5)
               \<and> \<not> (\<exists>n. user_review_count u = Some n \<and> 5 < n \<and> n \<le> 50)
               \<and> \<not> (\<exists>n. user_review_count u = Some n \<and> 50 < n))
          \<or> (\<not> (\<exists>n. user_review_count u = Some n \<and> n \<le> 5)
               \<and> (\<exists>n. user_review_count u = Some n \<and> 5 < n \<and> n \<le> 50)
               \<and> \<not> (\<exists>n. user_review_count u = Some n \<and> 50 < n))
          \<or> (\<not> (\<exists>n. user_review_count u = Some n \<and> n \<le> 5)
               \<and> \<not> (\<exists>n. user_review_count u = Some n \<and> 5 < n \<and> n \<le> 50)
               \<and> (\<exists>n. user_review_count u = Some n \<and> 50 < n)))"
proof -
  have one: "\<forall>u\<in>set (user_stats db).
            ((\<exists>n. user_review_count u = Some n \<and> n \<le> 5)
               \<and> \<not> (\<exists>n. user_review_count u = Some n \<and> 5 < n \<and> n \<le> 50)
               \<and> \<not> (\<exists>n. user_review_count u = Some n \<and> 50 < n))
          \<or> (\<not> (\<exists>n. user_review_count u = Some n \<and> n \<le> 5)
               \<and> (\<exists>n. user_review_count u = Some n \<and> 5 < n \<and> n \<le> 50)
               \<and> \<not> (\<exists>n. user_review_count u = Some n \<and> 50 < n))
          \<or> (\<not> (\<exists>n. user_review_count u = Some n \<and> n \<le> 5)
               \<and> \<not> (\<exists>n. user_review_count u = Some n \<and> 5 < n \<and> n \<le> 50)
               \<and> (\<exists>n. user_review_count u = Some n \<and> 50 < n))"
  proof
    fix u assume "u \<in> set (user_stats db)"
    with assms obtain n where n: "user_review_count u = Some n" by blast
    consider "n \<le> 5" | "5 < n \<and> n \<le> 50" | "50 < n" by linarith
    then show "((\<exists>n. user_review_count u = Some n \<and> n \<le> 5)
               \<and> \<not> (\<exists>n. user_review_count u = Some n \<and> 5 < n \<and> n \<le> 50)
               \<and> \<not> (\<exists>n. user_review_count u = Some n \<and> 50 < n))
          \<or> (\<not> (\<exists>n. user_review_count u = Some n \<and> n \<le> 5)
               \<and> (\<exists>n. user_review_count u = Some n \<and> 5 < n \<and> n \<le> 50)
               \<and> \<not> (\<exists>n. user_review_count u = Some n \<and> 50 < n))
          \<or> (\<not> (\<exists>n. user_review_count u = Some n \<and> n \<le> 5)
               \<and> \<not> (\<exists>n. user_review_count u = Some n \<and> 5 < n \<and> n \<le> 50)
               \<and> (\<exists>n. user_review_count u = Some n \<and> 50 < n))"
      by cases (simp_all add: n)
  qed
  have "casual (user_segments (compute_statistics str db))
           + regular (user_segments (compute_statistics str db))
           + power_seg (user_segments (compute_statistics str db))
         = unique_users (compute_statistics str db)"
    unfolding casual_eq regular_eq power_eq unique_users_eq
    by (rule three_way_count) (rule one)
  with one show ?thesis
    by (simp only: casual_eq regular_eq power_eq unique_users_eq simp_thms)
qed

theorem user_segments_partition_witness:
  "map user_review_count (user_stats db_sample) = [Some 3, Some 51]
   \<and> casual (user_segments (compute_statistics str_int db_sample)) = 1
   \<and> regular (user_segments (compute_statistics str_int db_sample)) = 0
   \<and> power_seg (user_segments (compute_statistics str_int db_sample)) = 1
   \<and> unique_users (compute_statistics str_int db_sample) = 2"
proof -
  have h: "\<forall>u\<in>set (user_stats db_sample). \<exists>n. user_review_count u = Some n \<and> 0 \<le> n"
    by (simp add: db_sample_def)
  from user_segments_partition [OF h, of str_int] show ?thesis
    by (simp add: db_sample_def)
qed

section \<open>Top products\<close>

lemma set_insort_desc: "set (insort_desc key x xs) = insert x (set xs)"
  by (induction xs) auto

lemma length_insort_desc: "length (insort_desc key x xs) = Suc (length xs)"
  by (induction xs) auto

lemma sorted_insort_desc:
  "sorted_wrt (\<lambda>p q. key q \<le> key p) xs \<Longrightarrow>
   sorted_wrt (\<lambda>p q. key q \<le> key p) (insort_desc key x xs)"
  by (induction xs) (auto simp: set_insort_desc)

lemma set_sort_desc: "set (sort_desc key xs) = set xs"
  by (induction xs) (auto simp: sort_desc_def set_insort_desc)

lemma length_sort_desc: "length (sort_desc key xs) = length xs"
  by (induction xs) (auto simp: sort_desc_def length_insort_desc)

lemma sorted_sort_desc: "sorted_wrt (\<lambda>p q. key q \<le> key p) (sort_desc key xs)"
  by (induction xs) (auto simp: sort_desc_def sorted_insort_desc)

lemma distinct_insort_desc:
  "distinct (map f (insort_desc key x xs)) \<longleftrightarrow> f x \<notin> f ` set xs \<and> distinct (map f xs)"
  by (induction xs) (auto simp: set_insort_desc)

lemma distinct_sort_desc: "distinct (map f xs) \<Longrightarrow> distinct (map f (sort_desc key xs))"
proof (induction xs)
  case Nil
  then show ?case by (simp add: sort_desc_def)
next
  case (Cons x xs)
  then have "distinct (map f (sort_desc key xs))" and "f x \<notin> f ` set (sort_desc key xs)"
    by (auto simp: set_sort_desc)
  then have "distinct (map f (insort_desc key x (sort_desc key xs)))"
    by (simp add: distinct_insort_desc)
  then show ?case by (simp add: sort_desc_def)
qed

lemma top_products_eq:
  "top_products (compute_statistics str db) = take 15 (sort_desc review_count (product_stats db))"
  by (simp add: compute_statistics_def Let_def limit_def)

lemma unique_products_eq:
  "unique_products (compute_statistics str db) = length (product_stats db)"
  by (simp add: compute_statistics_def Let_def count_documents_def)

text \<open>
  C3. \<open>top_products\<close> has \<open>min 15 unique_products\<close> rows of \<open>product_stats\<close>, in
  descending order of \<open>review_count\<close> (null last), and no product identifier occurs twice
  in it, the identifiers of the collection being unique.
\<close>

theorem top_products_sorted:
  "length (top_products (compute_statistics str db))
     = min 15 (unique_products (compute_statistics str db))
   \<and> sorted_wrt (\<lambda>p q. review_count q \<le> review_count p)
        (top_products (compute_statistics str db))
   \<and> set (top_products (compute_statistics str db)) \<subseteq> set (product_stats db)
   \<and> (unique_ids db \<longrightarrow> distinct (map product_id (top_products (compute_statistics str db))))"
proof -
  note tp = top_products_eq [of str db] and up = unique_products_eq [of str db]
  have "length (top_products (compute_statistics str db))
          = min 15 (unique_products (compute_statistics str db))"
    by (simp add: tp up length_sort_desc min.commute)
  moreover have "sorted_wrt (\<lambda>p q. review_count q \<le> review_count p)
        (top_products (compute_statistics str db))"
    unfolding tp by (rule sorted_wrt_take) (rule sorted_sort_desc)
  moreover have "set (top_products (compute_statistics str db)) \<subseteq> set (product_stats db)"
    unfolding tp using set_take_subset [of 15 "sort_desc review_count (product_stats db)"]
    by (simp add: set_sort_desc)
  moreover have "unique_ids db \<longrightarrow> distinct (map product_id (top_products (compute_statistics str db)))"
  proof
    assume "unique_ids db"
    then have "distinct (map product_id (sort_desc review_count (product_stats db)))"
      unfolding unique_ids_def by (rule distinct_sort_desc)
    then have "distinct (take 15 (map product_id (sort_desc review_count (product_stats db))))"
      by (rule distinct_take)
    then show "distinct (map product_id (top_products (compute_statistics str db)))"
      by (simp add: tp take_map)
  qed
  ultimately show ?thesis by blast
qed

theorem top_products_sorted_witness:
  "unique_ids db_sample
   \<and> map product_id (top_products (compute_statistics str_int db_sample)) = [''B'', ''A'']
   \<and> distinct (map product_id (top_products (compute_statistics str_int db_sample)))"
proof -
  have u: "unique_ids db_sample" by (simp add: unique_ids_def db_sample_def)
  have m: "map product_id (top_products (compute_statistics str_int db_sample)) = [''B'', ''A'']"
    by (simp add: compute_statistics_def Let_def limit_def sort_desc_def db_sample_def)
  from top_products_sorted [of str_int db_sample] u m show ?thesis by simp
qed

section \<open>Yearly data\<close>

lemma yearly_results_ids: "distinct (map fst (yearly_results db))"
  unfolding yearly_results_def by (rule pipeline_distinct)

lemma yearly_results_id_set: "fst ` set (yearly_results db) = year ` set (reviews db)"
  unfolding yearly_results_def by (rule pipeline_id_set)

lemma yearly_data_eq: "yearly_data (compute_statistics str db) = yearly_data_of str db"
  by (simp add: compute_statistics_def Let_def)

lemma truthy_rows_ids:
  "fst ` set (filter (\<lambda>(g, e). truthy g) rows) = {g \<in> fst ` set rows. truthy g}"
  by force

lemma yearly_data_key_set:
  "set (dict_keys (yearly_data_of str db)) = str ` {y \<in> year ` set (reviews db). truthy y}"
proof -
  have "set (dict_keys (yearly_data_of str db))
        = set (map fst (map (\<lambda>(g, e). (str g, e)) (filter (\<lambda>(g, e). truthy g) (yearly_results db))))"
    unfolding yearly_data_of_def keys_dict_comp by (simp only: set_map)
  also have "\<dots> = str ` fst ` set (filter (\<lambda>(g, e). truthy g) (yearly_results db))"
    by (simp only: keys_rendered set_map)
  finally show ?thesis
    by (simp only: truthy_rows_ids yearly_results_id_set)
qed

lemma yearly_data_length:
  assumes "inj_on str {y \<in> year ` set (reviews db). truthy y}"
  shows "length (yearly_data_of str db) = card {y \<in> year ` set (reviews db). truthy y}"
proof -
  let ?rows = "filter (\<lambda>(g, e). truthy g) (yearly_results db)"
  have d: "distinct (map fst ?rows)"
    using yearly_results_ids [of db] by (rule distinct_map_filter)
  have ids: "fst ` set ?rows = {y \<in> year ` set (reviews db). truthy y}"
    by (simp only: truthy_rows_ids yearly_results_id_set)
  have "dict_comp (map (\<lambda>(g, e). (str g, e)) ?rows) = map (\<lambda>(g, e). (str g, e)) ?rows"
    using d assms by (intro rendered_dict) (simp_all only: ids)
  then have "length (yearly_data_of str db) = length (map fst ?rows)"
    by (simp add: yearly_data_of_def)
  also have "\<dots> = card (set (map fst ?rows))"
    using d by (simp only: distinct_card)
  finally show ?thesis by (simp only: set_map ids)
qed

text \<open>
  C4, as stated, fails: the comprehension keeps a group when its identifier is true in
  Python, and the year 0 is false. A store whose only review is dated in the year 0 has a
  review with a year that is present and not null, and an empty \<open>yearly_data\<close>.
\<close>

theorem yearly_data_drops_year_zero:
  "Some 0 \<in> year ` set (reviews db_year_zero)
   \<and> dict_keys (yearly_data (compute_statistics str_int db_year_zero)) = []"
  by code_simp

text \<open>
  C4, amended. The keys of \<open>yearly_data\<close> are the printed years of the reviews whose year
  is present, not null and not 0. Where \<open>str\<close> tells a year \<open>y\<close> and the years of the store
  apart, \<open>yearly_data\<close> has an entry for \<open>y\<close> if and only if some review has the year
  \<open>y\<close> and \<open>y\<close> is neither null nor 0, and it has as many keys as there are such years:
  two for reviews in 2000 and 2001 only.
\<close>

theorem yearly_data_keys:
  "set (dict_keys (yearly_data (compute_statistics str db)))
     = str ` {y \<in> year ` set (reviews db). truthy y}
   \<and> (inj_on str (insert y (year ` set (reviews db))) \<longrightarrow>
        (str y \<in> set (dict_keys (yearly_data (compute_statistics str db)))
           \<longleftrightarrow> y \<in> year ` set (reviews db) \<and> truthy y)
        \<and> length (dict_keys (yearly_data (compute_statistics str db)))
            = card {y \<in> year ` set (reviews db). truthy y})"
proof -
  have keys: "set (dict_keys (yearly_data (compute_statistics str db)))
     = str ` {y \<in> year ` set (reviews db). truthy y}"
    by (simp only: yearly_data_eq yearly_data_key_set)
  have "(str y \<in> set (dict_keys (yearly_data (compute_statistics str db)))
           \<longleftrightarrow> y \<in> year ` set (reviews db) \<and> truthy y)
        \<and> length (dict_keys (yearly_data (compute_statistics str db)))
            = card {y \<in> year ` set (reviews db). truthy y}"
    if inj: "inj_on str (insert y (year ` set (reviews db)))"
  proof -
    have sub: "{y \<in> year ` set (reviews db). truthy y} \<subseteq> insert y (year ` set (reviews db))"
      by blast
    have inj': "inj_on str {y \<in> year ` set (reviews db). truthy y}"
      using inj sub by (rule inj_on_subset)
    have "str y \<in> str ` {y \<in> year ` set (reviews db). truthy y}
            \<longleftrightarrow> y \<in> {y \<in> year ` set (reviews db). truthy y}"
      using inj sub by (intro inj_on_image_mem_iff) auto
    then have "str y \<in> set (dict_keys (yearly_data (compute_statistics str db)))
           \<longleftrightarrow> y \<in> year ` set (reviews db) \<and> truthy y"
      by (simp add: keys)
    moreover have "length (dict_keys (yearly_data (compute_statistics str db)))
            = card {y \<in> year ` set (reviews db). truthy y}"
      using yearly_data_length [OF inj'] by (simp add: yearly_data_eq dict_keys_def)
    ultimately show ?thesis by blast
  qed
  with keys show ?thesis by blast
qed

lemma sample_years: "year ` set (reviews db_sample) = {Some 2000, Some 2001}"
  by (auto simp: db_sample_def)

theorem yearly_data_keys_witness:
  "inj_on str_int (insert (Some 2001) (year ` set (reviews db_sample)))
   \<and> str_int (Some 2001) \<in> set (dict_keys (yearly_data (compute_statistics str_int db_sample)))
   \<and> length (dict_keys (yearly_data (compute_statistics str_int db_sample))) = 2"
proof -
  have "insert (Some 2001) (year ` set (reviews db_sample)) = {Some 2000, Some 2001}"
    by (auto simp: sample_years)
  then have inj: "inj_on str_int (insert (Some 2001) (year ` set (reviews db_sample)))"
    by (simp add: str_int_def)
  have c: "card {y \<in> year ` set (reviews db_sample). truthy y} = 2"
  proof -
    have "{y \<in> year ` set (reviews db_sample). truthy y} = {Some 2000, Some 2001}"
      by (auto simp: sample_years truthy_def)
    then show ?thesis by simp
  qed
  from yearly_data_keys [of str_int db_sample "Some 2001"] inj c show ?thesis
    by (simp add: sample_years truthy_def)
qed

section \<open>Connection, caches and repeated calls\<close>

lemma connect_mongodb_body_databases:
  "databases (snd (connect_mongodb_body w)) = databases w
   \<and> query_error (snd (connect_mongodb_body w)) = query_error w"
  by (simp add: connect_mongodb_body_def load_dotenv_def st_error_def Let_def
      split: option.splits)

lemma connect_mongodb_body_caches:
  "connect_cache (snd (connect_mongodb_body w)) = connect_cache w
   \<and> stats_cache (snd (connect_mongodb_body w)) = stats_cache w"
  by (simp add: connect_mongodb_body_def load_dotenv_def st_error_def Let_def
      split: option.splits)

lemma connect_mongodb_databases: "databases (snd (connect_mongodb w)) = databases w"
  using connect_mongodb_body_databases [of w]
  by (auto simp: connect_mongodb_def split: option.splits prod.splits)

lemma connect_mongodb_query_error: "query_error (snd (connect_mongodb w)) = query_error w"
  using connect_mongodb_body_databases [of w]
  by (auto simp: connect_mongodb_def split: option.splits prod.splits)

lemma connect_mongodb_stats_cache: "stats_cache (snd (connect_mongodb w)) = stats_cache w"
  using connect_mongodb_body_caches [of w]
  by (auto simp: connect_mongodb_def split: option.splits prod.splits)

lemma connect_mongodb_cached:
  "connect_cache (snd (connect_mongodb w)) = Some (fst (connect_mongodb w))"
  using connect_mongodb_body_caches [of w]
  by (auto simp: connect_mongodb_def split: option.splits prod.splits)


text \<open>The handle is missing exactly when a set-up step raised or no connection string is set.\<close>

lemma connect_mongodb_body_None:
  "fst (connect_mongodb_body w) = None \<longleftrightarrow>
     import_error w \<noteq> None
     \<or> (dotenv w ++ environ w) ''MONGODB_URI'' = None
     \<or> (dotenv w ++ environ w) ''MONGODB_URI'' = Some []
     \<or> (\<exists>uri. (dotenv w ++ environ w) ''MONGODB_URI'' = Some uri
            \<and> client_error w uri (case (dotenv w ++ environ w) ''MONGODB_DATABASE'' of
                                      None \<Rightarrow> ''amazon_movies'' | Some n \<Rightarrow> n) \<noteq> None)"
  by (auto simp: connect_mongodb_body_def load_dotenv_def st_error_def Let_def
      split: option.splits)

lemma run_queries_connect: "run_queries str (snd (connect_mongodb w)) db = run_queries str w db"
  by (simp add: run_queries_def connect_mongodb_databases connect_mongodb_query_error
      split: option.splits)

lemma load_stats_body_eq:
  "load_stats_body str w =
     (case fst (connect_mongodb w) of
        None \<Rightarrow> Inr None
      | Some db \<Rightarrow> (case run_queries str w db of Inl e \<Rightarrow> Inl e | Inr b \<Rightarrow> Inr (Some b)),
      snd (connect_mongodb w))"
  using run_queries_connect [of str w]
  by (auto simp: load_stats_body_def split: prod.splits option.splits sum.splits)


lemma load_stats_miss:
  "stats_cache w = None \<Longrightarrow>
     fst (load_stats_from_mongodb str w)
       = (case fst (connect_mongodb w) of
            None \<Rightarrow> Inr None
          | Some db \<Rightarrow> (case run_queries str w db of Inl e \<Rightarrow> Inl e | Inr b \<Rightarrow> Inr (Some b)))"
  by (auto simp: load_stats_from_mongodb_def load_stats_body_eq split: option.splits sum.splits)

lemma caches_consistent_fresh:
  "connect_cache w = None \<Longrightarrow> stats_cache w = None \<Longrightarrow> caches_consistent w"
  by (simp add: caches_consistent_def)

lemma caches_consistent_connect:
  "caches_consistent w \<Longrightarrow> caches_consistent (snd (connect_mongodb w))"
  using connect_mongodb_body_caches [of w]
  by (auto simp: caches_consistent_def connect_mongodb_def split: option.splits prod.splits)

lemma caches_consistent_load_stats:
  assumes "caches_consistent w"
  shows "caches_consistent (snd (load_stats_from_mongodb str w))"
proof (cases "stats_cache w")
  case (Some r)
  with assms show ?thesis by (simp add: load_stats_from_mongodb_def)
next
  case None
  have c: "connect_cache (snd (connect_mongodb w)) = Some (fst (connect_mongodb w))"
    by (rule connect_mongodb_cached)
  have s: "stats_cache (snd (connect_mongodb w)) = None"
    using None by (simp add: connect_mongodb_stats_cache)
  show ?thesis
    using None c s
    by (auto simp: caches_consistent_def load_stats_from_mongodb_def load_stats_body_eq
        split: option.splits sum.splits)
qed

text \<open>
  When \<open>connect_mongodb\<close> yields no handle (no connection string is configured, or a
  set-up step raised and the exception was caught), \<open>load_stats_from_mongodb\<close> returns
  \<open>None\<close>: it neither raises nor returns a bundle.
\<close>

theorem unavailable_handle_gives_None:
  assumes "caches_consistent w" and "fst (connect_mongodb w) = None"
  shows "fst (load_stats_from_mongodb str w) = Inr None"
proof (cases "stats_cache w")
  case None
  then show ?thesis using assms(2) by (simp add: load_stats_miss)
next
  case (Some r)
  with assms(1) obtain h where h: "connect_cache w = Some h" and rh: "(r = None) = (h = None)"
    by (auto simp: caches_consistent_def split: option.splits)
  from h assms(2) have "h = None" by (simp add: connect_mongodb_def)
  with rh Some show ?thesis by (simp add: load_stats_from_mongodb_def)
qed

theorem unavailable_handle_gives_None_witness:
  "caches_consistent world_no_uri \<and> fst (connect_mongodb world_no_uri) = None
   \<and> fst (load_stats_from_mongodb str_int world_no_uri) = Inr None
   \<and> caches_consistent world_bad_client \<and> fst (connect_mongodb world_bad_client) = None
   \<and> fst (load_stats_from_mongodb str_int world_bad_client) = Inr None"
proof -
  have a: "caches_consistent world_no_uri"
    by (simp add: caches_consistent_def world_no_uri_def world_sample_def)
  have b: "fst (connect_mongodb world_no_uri) = None"
    by (simp add: connect_mongodb_def connect_mongodb_body_def load_dotenv_def Let_def
        world_no_uri_def world_sample_def)
  have c: "caches_consistent world_bad_client"
    by (simp add: caches_consistent_def world_bad_client_def world_sample_def)
  have d: "fst (connect_mongodb world_bad_client) = None"
    by (simp add: connect_mongodb_def connect_mongodb_body_def load_dotenv_def Let_def
        st_error_def world_bad_client_def world_sample_def)
  from unavailable_handle_gives_None [OF a b, of str_int]
    unavailable_handle_gives_None [OF c d, of str_int] a b c d
  show ?thesis by simp
qed

text \<open>
  C5. A connection that cannot be established is not always met by \<open>None\<close>. The client is
  built without contacting the server, so with a well-formed connection string and a server
  that does not answer \<open>connect_mongodb\<close> returns a handle, the first query raises, and
  the exception leaves \<open>load_stats_from_mongodb\<close>: only the set-up steps are inside a
  \<open>try\<close>.
\<close>

theorem unreachable_server_raises:
  "environ world_server_down ''MONGODB_URI'' = Some ''mongodb://localhost''
   \<and> fst (connect_mongodb world_server_down) = Some ''amazon_movies''
   \<and> fst (load_stats_from_mongodb str_int world_server_down) = Inl ''ServerSelectionTimeoutError''"
  by (simp add: load_stats_miss run_queries_def connect_mongodb_def connect_mongodb_body_def
      load_dotenv_def Let_def world_server_down_def world_sample_def)

section \<open>Bundles of the same documents\<close>




























section \<open>A store without reviews\<close>

lemma group_stage_Nil: "group_stage key [] = []"
  by (simp add: group_stage_def)

lemma sort_desc_Nil_iff: "sort_desc key xs = [] \<longleftrightarrow> xs = []"
  using length_sort_desc [of key xs] by (metis length_0_conv)

lemma compute_statistics_no_reviews:
  assumes "reviews db = []"
  shows "total_reviews (compute_statistics str db) = 0"
    and "avg_rating (compute_statistics str db) = Some 0"
    and "avg_word_count (compute_statistics str db) = Some 0"
    and "rating_counts (compute_statistics str db) = []"
    and "rating_percentages (compute_statistics str db) = []"
    and "yearly_data (compute_statistics str db) = []"
    and "word_count_by_rating (compute_statistics str db) = []"
    and "helpful_by_rating (compute_statistics str db) = []"
  using assms
  by (simp_all add: compute_statistics_def Let_def count_documents_def avg_result_def
      rating_counts_of_def rating_results_def yearly_data_of_def yearly_results_def
      wc_results_def help_results_def group_stage_Nil sort_stage_def dict_comp_Nil)

text \<open>
  C6, as stated, fails for \<open>top_products\<close>: it is read from \<open>product_stats\<close>, and a store
  without reviews may still hold product summaries.
\<close>

theorem no_reviews_top_products_not_empty:
  "reviews db_no_reviews = []
   \<and> map product_id (top_products (compute_statistics str_int db_no_reviews)) = [''A'']"
  by (simp add: db_no_reviews_def top_products_eq sort_desc_def)

text \<open>
  C6, amended. On an available store without reviews (the handle is there and the server
  answers) a call that computes (the statistics cache is empty) returns a bundle with \<open>total_reviews\<close>, \<open>avg_rating\<close> and
  \<open>avg_word_count\<close> 0 and with empty \<open>rating_counts\<close>, \<open>rating_percentages\<close>,
  \<open>yearly_data\<close>, \<open>word_count_by_rating\<close> and \<open>helpful_by_rating\<close>; \<open>top_products\<close> has
  \<open>min 15\<close> of the number of product summaries rows and is empty exactly when
  \<open>product_stats\<close> is.
\<close>

theorem no_reviews_bundle:
  assumes "stats_cache w = None" and "fst (connect_mongodb w) = Some h"
    and "query_error w h = None" and "reviews (databases w h) = []"
  shows "\<exists>b. fst (load_stats_from_mongodb str w) = Inr (Some b)
           \<and> total_reviews b = 0 \<and> avg_rating b = Some 0 \<and> avg_word_count b = Some 0
           \<and> rating_counts b = [] \<and> rating_percentages b = [] \<and> yearly_data b = []
           \<and> word_count_by_rating b = [] \<and> helpful_by_rating b = []
           \<and> length (top_products b) = min 15 (length (product_stats (databases w h)))
           \<and> (top_products b = [] \<longleftrightarrow> product_stats (databases w h) = [])"
proof -
  let ?b = "compute_statistics str (databases w h)"
  have "fst (load_stats_from_mongodb str w) = Inr (Some ?b)"
    using assms(1,2,3) by (simp add: load_stats_miss run_queries_def)
  moreover have "length (top_products ?b) = min 15 (length (product_stats (databases w h)))"
    by (simp add: top_products_eq length_sort_desc min.commute)
  moreover have "top_products ?b = [] \<longleftrightarrow> product_stats (databases w h) = []"
    by (simp add: top_products_eq sort_desc_Nil_iff)
  ultimately show ?thesis
    using compute_statistics_no_reviews [OF assms(4), of str] by blast
qed

theorem no_reviews_bundle_witness:
  "stats_cache world_empty_db = None \<and> fst (connect_mongodb world_empty_db) = Some ''empty''
   \<and> query_error world_empty_db ''empty'' = None
   \<and> reviews (databases world_empty_db ''empty'') = []
   \<and> (\<exists>b. fst (load_stats_from_mongodb str_int world_empty_db) = Inr (Some b)
          \<and> total_reviews b = 0 \<and> rating_counts b = [] \<and> length (top_products b) = 1)"
proof -
  have a: "stats_cache world_empty_db = None"
    by (simp add: world_empty_db_def world_sample_def)
  have b: "fst (connect_mongodb world_empty_db) = Some ''empty''"
    by (simp add: connect_mongodb_def connect_mongodb_body_def load_dotenv_def Let_def
        world_empty_db_def world_sample_def)
  have c: "reviews (databases world_empty_db ''empty'') = []"
    by (simp add: world_empty_db_def world_sample_def db_no_reviews_def)
  have d: "length (product_stats (databases world_empty_db ''empty'')) = 1"
    by (simp add: world_empty_db_def world_sample_def db_no_reviews_def)
  have q: "query_error world_empty_db ''empty'' = None"
    by (simp add: world_empty_db_def world_sample_def)
  from no_reviews_bundle [OF a b q c, of str_int] a b c d q show ?thesis
    by auto
qed

section \<open>Averages per score\<close>

lemma numbers_present:
  "numbers (map field rs) = map (\<lambda>r. the (field r)) (filter (\<lambda>r. field r \<noteq> None) rs)"
  by (induction rs) (auto split: option.splits)

lemma acc_avg_mean: "acc_avg (map field rs) = mean_where_present field rs"
  by (simp add: acc_avg_def mean_where_present_def Let_def numbers_present)

lemma mean_ignores_match:
  "mean_where_present field (filter (\<lambda>r. field r \<noteq> None) rs) = mean_where_present field rs"
  by (simp add: mean_where_present_def Let_def)

lemma filter_group_match:
  "filter (\<lambda>d. score d = g) (filter (\<lambda>r. op_ne_null (helpful_ratio r)) rs)
     = filter (\<lambda>r. helpful_ratio r \<noteq> None) (filter (\<lambda>d. score d = g) rs)"
  by (induction rs) (auto simp: op_ne_null_def)

text \<open>
  C7. For a score \<open>g\<close> of the store, \<open>word_count_by_rating\<close> holds under the printed
  \<open>g\<close> the mean word count of those reviews of score \<open>g\<close> that have a word count (null
  when none has), and \<open>helpful_by_rating\<close> holds the mean helpfulness ratio of those that
  have a ratio (no entry when none has). A review without the field does not count as zero:
  it is in neither the sum nor the divisor. The function \<open>str\<close> tells the scores apart.
\<close>

theorem averages_over_present_values:
  assumes "inj_on str (score ` set (reviews db))" and "g \<in> score ` set (reviews db)"
  shows "dict_get (word_count_by_rating (compute_statistics str db)) (str g)
           = Some (mean_where_present word_count (filter (\<lambda>r. score r = g) (reviews db)))
       \<and> dict_get (helpful_by_rating (compute_statistics str db)) (str g)
           = (if \<exists>r\<in>set (reviews db). score r = g \<and> helpful_ratio r \<noteq> None
              then Some (mean_where_present helpful_ratio (filter (\<lambda>r. score r = g) (reviews db)))
              else None)"
proof -
  have wc: "dict_get (word_count_by_rating (compute_statistics str db)) (str g)
           = Some (mean_where_present word_count (filter (\<lambda>r. score r = g) (reviews db)))"
  proof -
    have "(g, acc_avg (map word_count (filter (\<lambda>d. score d = g) (reviews db)))) \<in> set (wc_results db)"
      unfolding wc_results_def using assms(2) by (rule pipeline_row)
    moreover have "distinct (map fst (wc_results db))"
      unfolding wc_results_def by (rule pipeline_distinct)
    moreover have "inj_on str (fst ` set (wc_results db))"
      unfolding wc_results_def pipeline_id_set by (rule assms(1))
    ultimately have "dict_get (dict_comp (map (\<lambda>(g, a). (str g, a)) (wc_results db))) (str g)
        = Some (acc_avg (map word_count (filter (\<lambda>d. score d = g) (reviews db))))"
      by (intro rendered_lookup)
    then show ?thesis
      by (simp add: compute_statistics_def Let_def acc_avg_mean)
  qed
  let ?matched = "filter (\<lambda>r. op_ne_null (helpful_ratio r)) (reviews db)"
  have ids: "fst ` set (help_results db) = score ` set ?matched"
    unfolding help_results_def by (rule pipeline_id_set)
  have sub: "score ` set ?matched \<subseteq> score ` set (reviews db)" by auto
  have mem: "g \<in> score ` set ?matched
               \<longleftrightarrow> (\<exists>r\<in>set (reviews db). score r = g \<and> helpful_ratio r \<noteq> None)"
    by (auto simp: op_ne_null_def)
  have hp: "dict_get (helpful_by_rating (compute_statistics str db)) (str g)
           = (if \<exists>r\<in>set (reviews db). score r = g \<and> helpful_ratio r \<noteq> None
              then Some (mean_where_present helpful_ratio (filter (\<lambda>r. score r = g) (reviews db)))
              else None)"
  proof (cases "g \<in> score ` set ?matched")
    case True
    have "(g, acc_avg (map helpful_ratio (filter (\<lambda>d. score d = g) ?matched))) \<in> set (help_results db)"
      unfolding help_results_def using True by (rule pipeline_row)
    moreover have "distinct (map fst (help_results db))"
      unfolding help_results_def by (rule pipeline_distinct)
    moreover have "inj_on str (fst ` set (help_results db))"
      unfolding ids using assms(1) sub by (rule inj_on_subset)
    ultimately have "dict_get (dict_comp (map (\<lambda>(g, a). (str g, a)) (help_results db))) (str g)
        = Some (acc_avg (map helpful_ratio (filter (\<lambda>d. score d = g) ?matched)))"
      by (intro rendered_lookup)
    moreover have "acc_avg (map helpful_ratio (filter (\<lambda>d. score d = g) ?matched))
        = mean_where_present helpful_ratio (filter (\<lambda>r. score r = g) (reviews db))"
      by (simp only: acc_avg_mean filter_group_match mean_ignores_match)
    ultimately show ?thesis
      using True mem by (simp add: compute_statistics_def Let_def)
  next
    case False
    have "insert g (fst ` set (help_results db)) \<subseteq> score ` set (reviews db)"
      unfolding ids using assms(2) sub by blast
    with assms(1) have "inj_on str (insert g (fst ` set (help_results db)))"
      by (rule inj_on_subset)
    moreover from False have "g \<notin> fst ` set (help_results db)" by (simp add: ids)
    ultimately have "dict_get (dict_comp (map (\<lambda>(g, a). (str g, a)) (help_results db))) (str g) = None"
      by (rule rendered_lookup_None)
    then show ?thesis
      using False mem by (simp add: compute_statistics_def Let_def)
  qed
  from wc hp show ?thesis by blast
qed

lemma sample_scores: "score ` set (reviews db_sample) = {Some 1, Some 5}"
  by (auto simp: db_sample_def)

theorem averages_over_present_values_witness:
  "inj_on str_int (score ` set (reviews db_sample)) \<and> Some 5 \<in> score ` set (reviews db_sample)
   \<and> dict_get (word_count_by_rating (compute_statistics str_int db_sample)) ''5'' = Some (Some 40)
   \<and> dict_get (helpful_by_rating (compute_statistics str_int db_sample)) ''5'' = Some (Some 1)"
proof -
  have inj: "inj_on str_int (score ` set (reviews db_sample))"
    by (simp add: sample_scores str_int_def)
  have g: "Some 5 \<in> score ` set (reviews db_sample)"
    by (simp add: sample_scores)
  have s: "str_int (Some 5) = ''5''" by (simp add: str_int_def)
  from averages_over_present_values [OF inj g] inj g show ?thesis
    unfolding s by (simp add: mean_where_present_def Let_def db_sample_def)
qed

section \<open>Fields that repeat other fields\<close>

text \<open>
  C10. Every bundle carries \<open>power_users\<close>, equal to the \<open>power\<close> counter of
  \<open>user_segments\<close>, and the constant \<open>source\<close> \<open>MongoDB (150K Sample)\<close>.
\<close>

theorem power_users_and_source:
  "power_users (compute_statistics str db)
     = power_seg (user_segments (compute_statistics str db))
   \<and> source (compute_statistics str db) = ''MongoDB (150K Sample)''"
  by (simp add: compute_statistics_def Let_def)

end
